theory Spec2Isabelle
  imports Complex_Main
begin

section \<open>The token and operator vocabulary (exprop.py)\<close>

text \<open>
  \<open>ExprToken\<close> and \<open>ExprOp\<close> are string-valued enumerations. Each member is a
  constructor; \<open>ExprToken_value\<close> and \<open>ExprOp_value\<close> give the member's string.
  The members \<open>MAX\<close> and \<open>MIN\<close> of \<open>ExprOp\<close> carry the suffix \<open>_op\<close>, since
  the bare names are binders of HOL.
\<close>

datatype ExprToken =
    LumaMin | ChromaMin | Lumamax | Chromamax
  | RangeHalf | RangeSize
  | RangeMin | LumaRangeMin | ChromaRangeMin
  | RangeMax | LumaRangeMax | ChromaRangeMax
  | RangeInMin | LumaRangeInMin | ChromaRangeInMin
  | RangeInMax | LumaRangeInMax | ChromaRangeInMax

fun ExprToken_value :: "ExprToken \<Rightarrow> string" where
  "ExprToken_value LumaMin = ''ymin''"
| "ExprToken_value ChromaMin = ''cmin''"
| "ExprToken_value Lumamax = ''ymax''"
| "ExprToken_value Chromamax = ''cmax''"
| "ExprToken_value RangeHalf = ''range_half''"
| "ExprToken_value RangeSize = ''range_size''"
| "ExprToken_value RangeMin = ''range_min''"
| "ExprToken_value LumaRangeMin = ''yrange_min''"
| "ExprToken_value ChromaRangeMin = ''crange_min''"
| "ExprToken_value RangeMax = ''range_max''"
| "ExprToken_value LumaRangeMax = ''yrange_max''"
| "ExprToken_value ChromaRangeMax = ''crange_max''"
| "ExprToken_value RangeInMin = ''range_in_min''"
| "ExprToken_value LumaRangeInMin = ''yrange_in_min''"
| "ExprToken_value ChromaRangeInMin = ''crange_in_min''"
| "ExprToken_value RangeInMax = ''range_in_max''"
| "ExprToken_value LumaRangeInMax = ''yrange_in_max''"
| "ExprToken_value ChromaRangeInMax = ''crange_in_max''"

datatype ExprOp =
    EXP | LOG | SQRT | SIN | COS | ABS | NOT | DUP | DUPN | TRUNC | ROUND | FLOOR
  | MAX_op | MIN_op | ADD | SUB | MUL | DIV | POW | GT | LT | EQ | GTE | LTE
  | AND | OR | XOR | SWAP | SWAPN | MOD
  | TERN | CLAMP
  | REL_PIX | ABS_PIX

fun ExprOp_value :: "ExprOp \<Rightarrow> string" where
  "ExprOp_value EXP = ''exp''"
| "ExprOp_value LOG = ''log''"
| "ExprOp_value SQRT = ''sqrt''"
| "ExprOp_value SIN = ''sin''"
| "ExprOp_value COS = ''cos''"
| "ExprOp_value ABS = ''abs''"
| "ExprOp_value NOT = ''not''"
| "ExprOp_value DUP = ''dup''"
| "ExprOp_value DUPN = ''dupN''"
| "ExprOp_value TRUNC = ''trunc''"
| "ExprOp_value ROUND = ''round''"
| "ExprOp_value FLOOR = ''floor''"
| "ExprOp_value MAX_op = ''max''"
| "ExprOp_value MIN_op = ''min''"
| "ExprOp_value ADD = ''+''"
| "ExprOp_value SUB = ''-''"
| "ExprOp_value MUL = ''*''"
| "ExprOp_value DIV = ''/''"
| "ExprOp_value POW = ''pow''"
| "ExprOp_value GT = ''>''"
| "ExprOp_value LT = ''<''"
| "ExprOp_value EQ = ''=''"
| "ExprOp_value GTE = ''>=''"
| "ExprOp_value LTE = ''<=''"
| "ExprOp_value AND = ''and''"
| "ExprOp_value OR = ''or''"
| "ExprOp_value XOR = ''xor''"
| "ExprOp_value SWAP = ''swap''"
| "ExprOp_value SWAPN = ''swapN''"
| "ExprOp_value MOD = ''%''"
| "ExprOp_value TERN = ''?''"
| "ExprOp_value CLAMP = ''clamp''"
| "ExprOp_value REL_PIX = ''{char:s}[{x:d},{y:d}]''"
| "ExprOp_value ABS_PIX = ''{x:d} {y:d} {char:s}[]''"

text \<open>
  An expression fragment is a nested list whose leaves are strings (variable names,
  pixel references, raw text), numeric literals, operators and tokens. A numeric
  literal is carried by its exact value.
\<close>

datatype frag =
    FStr string
  | FNum rat
  | FOp ExprOp
  | FTok ExprToken
  | FList "frag list"

type_synonym ExprList = "frag list"

text \<open>\<open>ExprOp.__mul__\<close>: \<open>[self] * n\<close>, the empty list when \<open>n \<le> 0\<close>.\<close>

definition ExprOp_mul :: "ExprOp \<Rightarrow> int \<Rightarrow> ExprOp list" where
  "ExprOp_mul self n = replicate (nat n) self"

text \<open>
  Modelled from the spec: \<open>mlength\<close> and \<open>append\<close> of the list class \<open>StrList\<close> that
  \<open>ExprList\<close> extends (imported, not under src/). \<open>mlength\<close> is one less than the
  number of entries, so that an operator repeated \<open>mlength\<close> times folds the entries;
  \<open>append\<close> takes any number of values and adds each of them at the end.
\<close>

definition mlength :: "frag list \<Rightarrow> int" where
  "mlength xs = int (length xs) - 1"

definition append :: "ExprList \<Rightarrow> frag list \<Rightarrow> ExprList" where
  "append self values = self @ values"

text \<open>Errors are values: the exception class with the arguments it is raised with.\<close>

datatype func_ref = ExprOp_rmse | ExprOp_mae

datatype py_error =
    ValueError string
  | CustomIndexError string func_ref
  | IndexError
  | AssertionError
  | ZeroDivisionError

subsection \<open>\<open>ExprOp.clamp\<close>\<close>

text \<open>
  The process-wide flag \<open>aka_expr_available\<close> (imported from util, not under src/) is
  the first parameter of every function that reads it.
\<close>

definition clamp :: "bool \<Rightarrow> frag \<Rightarrow> frag \<Rightarrow> frag \<Rightarrow> ExprList" where
  "clamp aka_expr_available min_b max_b c =
     (if aka_expr_available then [c, min_b, max_b, FOp CLAMP]
      else [c, min_b, FOp MAX_op, max_b, FOp MAX_op])"

subsection \<open>\<open>ExprOp.matrix\<close>\<close>

text \<open>Python's decimal text of an integer, as \<open>str\<close> and the format code \<open>d\<close> give it.\<close>

fun str_nat :: "nat \<Rightarrow> string" where
  "str_nat n =
     (if n < 10 then [''0123456789'' ! n]
      else str_nat (n div 10) @ [''0123456789'' ! (n mod 10)])"

declare str_nat.simps [simp del]

definition str_int :: "int \<Rightarrow> string" where
  "str_int i = (if i < 0 then CHR ''-'' # str_nat (nat (- i)) else str_nat (nat i))"

text \<open>
  \<open>ExprOp.REL_PIX(var, x, y)\<close>: \<open>__call__\<close> formats the member's template; each
  \<open>KeyError\<close> for a missing name (\<open>char\<close>, then \<open>x\<close>, then \<open>y\<close>) binds the first
  remaining positional argument to that name, so the fourth attempt formats
  \<open>{char:s}[{x:d},{y:d}]\<close> with the three arguments in order.
\<close>

definition REL_PIX_call :: "string \<Rightarrow> int \<Rightarrow> int \<Rightarrow> string" where
  "REL_PIX_call char x y = char @ ''['' @ str_int x @ '','' @ str_int y @ '']''"

datatype ConvMode = SQUARE | VERTICAL | HORIZONTAL

definition coordinates :: "int \<Rightarrow> ConvMode \<Rightarrow> (int \<times> int) list" where
  "coordinates radius mode =
     (if mode \<noteq> SQUARE then
        [if mode = HORIZONTAL then (xy, 0) else (0, xy). xy \<leftarrow> [- radius..radius]]
      else
        [(x, y). y \<leftarrow> [- radius..radius], x \<leftarrow> [- radius..radius]])"

definition matrix :: "string \<Rightarrow> int \<Rightarrow> ConvMode \<Rightarrow> (int \<times> int) list \<Rightarrow> ExprList" where
  "matrix var radius mode exclude =
     [if x = y \<and> y = 0 then FStr var else FStr (REL_PIX_call var x y).
        (x, y) \<leftarrow> coordinates radius mode, (x, y) \<notin> set exclude]"

subsection \<open>\<open>ExprOp.convolution\<close>\<close>

text \<open>\<open>math.isqrt\<close>: the integer part of the square root.\<close>

fun isqrt :: "nat \<Rightarrow> nat" where
  "isqrt 0 = 0"
| "isqrt (Suc n) = (let r = isqrt n in if Suc r * Suc r \<le> Suc n then Suc r else r)"

text \<open>
  The weights come flat or as rows; \<open>flatten\<close> concatenates the rows. A weight is a
  number, carried by its exact value.
\<close>

datatype matrix_arg = Flat "rat list" | Nested "rat list list"

fun flatten_matrix :: "matrix_arg \<Rightarrow> rat list" where
  "flatten_matrix (Flat ws) = ws"
| "flatten_matrix (Nested rows) = concat rows"

text \<open>\<open>divisor: float | bool\<close>; \<open>is True\<close> and \<open>is False\<close> test the boolean objects only.\<close>

datatype divisor_arg = DivBool bool | DivNum rat

text \<open>
  \<open>convolution\<close> in the order of its statements. \<open>float_sum\<close> stands for
  \<open>sum(map(float, convolution))\<close>: floating-point addition rounds, so the sum is a
  parameter of the model, and exact addition (\<open>sum_list\<close>) is one instance of it.
\<close>

definition convolution ::
  "bool \<Rightarrow> (rat list \<Rightarrow> rat) \<Rightarrow> string \<Rightarrow> matrix_arg \<Rightarrow> rat option \<Rightarrow> divisor_arg \<Rightarrow> bool \<Rightarrow>
   ConvMode \<Rightarrow> rat option \<Rightarrow> rat option \<Rightarrow> bool \<Rightarrow> py_error + ExprList" where
  "convolution aka_expr_available float_sum var matrix_in bias divisor saturate mode
       premultiply multiply clamp_flag =
     (let convolution_l = flatten_matrix matrix_in;
          conv_len = length convolution_l
      in
      if conv_len mod 2 = 0 then
        Inl (ValueError ''ExprOp.convolution: convolution length must be odd!'')
      else if conv_len < 3 then
        Inl (ValueError ''ExprOp.convolution: you must pass at least 3 convolution items!'')
      else if mode = SQUARE \<and> conv_len \<noteq> (isqrt conv_len) ^ 2 then
        Inl (ValueError
          ''ExprOp.convolution: with square mode, convolution must represent a square (radius*radius n items)!'')
      else
        let radius = (if mode \<noteq> SQUARE then conv_len div 2 else isqrt conv_len div 2);
            rel_pixels = matrix var (int radius) mode [];
            output0 =
              [if weight = 1 then rel_pix else FList [rel_pix, FNum weight, FOp MUL].
                 (rel_pix, weight) \<leftarrow> zip rel_pixels convolution_l, weight \<noteq> 0];
            output1 = output0 @ map FOp (ExprOp_mul ADD (mlength output0));
            output2 =
              (case premultiply of None \<Rightarrow> output1
               | Some p \<Rightarrow> append output1 [FNum p, FOp MUL]);
            output3 =
              (if divisor \<noteq> DivBool False then
                 let d = (case divisor of DivBool _ \<Rightarrow> float_sum convolution_l | DivNum q \<Rightarrow> q)
                 in if d \<notin> {0, 1} then append output2 [FNum d, FOp DIV] else output2
               else output2);
            output4 =
              (case bias of None \<Rightarrow> output3 | Some b \<Rightarrow> append output3 [FNum b, FOp ADD]);
            output5 = (if \<not> saturate then append output4 [FOp ABS] else output4);
            output6 =
              (case multiply of None \<Rightarrow> output5
               | Some m \<Rightarrow> append output5 [FNum m, FOp MUL]);
            output7 =
              (if clamp_flag then
                 append output6
                   [FList (clamp aka_expr_available (FTok RangeMin) (FTok RangeMax) (FStr ''''))]
               else output6)
        in Inr output7)"

text \<open>
  The convolution builder as the specification words it, part by part: the kept terms,
  the fold, and the pieces appended after it.
\<close>

definition spec_conv_radius :: "nat \<Rightarrow> ConvMode \<Rightarrow> nat" where
  "spec_conv_radius n mode = (if mode \<noteq> SQUARE then n div 2 else isqrt n div 2)"

definition spec_conv_terms :: "frag list \<Rightarrow> rat list \<Rightarrow> frag list" where
  "spec_conv_terms refs ws =
     map (\<lambda>(p, w). if w = 1 then p else FList [p, FNum w, FOp MUL])
       (filter (\<lambda>(p, w). w \<noteq> 0) (zip refs ws))"

definition spec_conv_divisor :: "(rat list \<Rightarrow> rat) \<Rightarrow> divisor_arg \<Rightarrow> rat list \<Rightarrow> frag list" where
  "spec_conv_divisor float_sum divisor ws =
     (case divisor of
        DivBool False \<Rightarrow> []
      | DivBool True \<Rightarrow>
          (if float_sum ws = 0 \<or> float_sum ws = 1 then [] else [FNum (float_sum ws), FOp DIV])
      | DivNum q \<Rightarrow> (if q = 0 \<or> q = 1 then [] else [FNum q, FOp DIV]))"

definition spec_conv_tail :: "bool \<Rightarrow> rat option \<Rightarrow> bool \<Rightarrow> rat option \<Rightarrow> bool \<Rightarrow> frag list" where
  "spec_conv_tail aka_expr_available bias saturate multiply clamp_flag =
     (case bias of None \<Rightarrow> [] | Some b \<Rightarrow> [FNum b, FOp ADD]) @
     (if saturate then [] else [FOp ABS]) @
     (case multiply of None \<Rightarrow> [] | Some m \<Rightarrow> [FNum m, FOp MUL]) @
     (if clamp_flag then
        [FList (clamp aka_expr_available (FTok RangeMin) (FTok RangeMax) (FStr ''''))]
      else [])"

subsection \<open>\<open>ExprOp._parse_planes\<close>, \<open>ExprOp.rmse\<close>, \<open>ExprOp.mae\<close>\<close>

text \<open>
  Modelled from the spec: \<open>ExprVars\<close> (util, not under src/), a contiguous index range
  into the catalog of clip variable names, built from a single count or from a
  start/stop pair; it has a length and iterates over the names of its indices. The
  catalog lookup is the parameter \<open>vname\<close> of the functions that iterate.
\<close>

datatype ExprVarRangeT = VarCount nat | VarRange nat nat

record ExprVars =
  start :: nat
  stop :: nat

fun ExprVars_init :: "ExprVarRangeT \<Rightarrow> ExprVars" where
  "ExprVars_init (VarCount n) = \<lparr>start = 0, stop = n\<rparr>"
| "ExprVars_init (VarRange a b) = \<lparr>start = a, stop = b\<rparr>"

definition ExprVars_len :: "ExprVars \<Rightarrow> nat" where
  "ExprVars_len v = stop v - start v"

definition ExprVars_iter :: "(nat \<Rightarrow> string) \<Rightarrow> ExprVars \<Rightarrow> string list" where
  "ExprVars_iter vname v = map vname [start v..<stop v]"

definition parse_planes ::
  "ExprVarRangeT \<Rightarrow> ExprVarRangeT option \<Rightarrow> func_ref \<Rightarrow> py_error + (ExprVars \<times> ExprVars)" where
  "parse_planes planesa planesb func =
     (let pa = ExprVars_init planesa;
          pb = (case planesb of
                  None \<Rightarrow> ExprVars_init (VarRange (stop pa) (stop pa + ExprVars_len pa))
                | Some r \<Rightarrow> ExprVars_init r)
      in if ExprVars_len pa \<noteq> ExprVars_len pb then
           Inl (CustomIndexError ''Both clips must have an equal amount of planes!'' func)
         else Inr (pa, pb))"

definition rmse ::
  "(nat \<Rightarrow> string) \<Rightarrow> ExprVarRangeT \<Rightarrow> ExprVarRangeT option \<Rightarrow> py_error + ExprList" where
  "rmse vname planesa planesb =
     (case parse_planes planesa planesb ExprOp_rmse of
        Inl e \<Rightarrow> Inl e
      | Inr (pa, pb) \<Rightarrow>
          let expr0 =
                [FList [FStr a, FStr b, FOp SUB, FOp DUP, FOp MUL, FOp SQRT].
                   (a, b) \<leftarrow> zip (ExprVars_iter vname pa) (ExprVars_iter vname pb)]
          in Inr (append expr0 [FList (map FOp (ExprOp_mul MAX_op (mlength expr0)))]))"

definition mae ::
  "(nat \<Rightarrow> string) \<Rightarrow> ExprVarRangeT \<Rightarrow> ExprVarRangeT option \<Rightarrow> py_error + ExprList" where
  "mae vname planesa planesb =
     (case parse_planes planesa planesb ExprOp_rmse of
        Inl e \<Rightarrow> Inl e
      | Inr (pa, pb) \<Rightarrow>
          let expr0 =
                [FList [FStr a, FStr b, FOp SUB, FOp ABS].
                   (a, b) \<leftarrow> zip (ExprVars_iter vname pa) (ExprVars_iter vname pb)]
          in Inr (append expr0 [FList (map FOp (ExprOp_mul MAX_op (mlength expr0)))]))"

subsection \<open>Postfix evaluation of a fragment list\<close>

text \<open>
  Modelled from the spec: the expression engine is outside the repository. A fragment
  list is flattened to its leaves in order, and the leaves are evaluated with a stack,
  operators following their operands. Samples are exact real numbers; the operators
  are the ones the difference builders emit. \<open>None\<close> is a stack underflow or a leaf
  the model does not evaluate.
\<close>

fun frag_leaves :: "frag \<Rightarrow> frag list" where
  "frag_leaves (FList xs) = concat (map frag_leaves xs)"
| "frag_leaves x = [x]"

definition flatten_frags :: "frag list \<Rightarrow> frag list" where
  "flatten_frags xs = concat (map frag_leaves xs)"

fun postfix_step :: "(string \<Rightarrow> real) \<Rightarrow> frag \<Rightarrow> real list \<Rightarrow> real list option" where
  "postfix_step env (FStr v) st = Some (env v # st)"
| "postfix_step env (FOp SUB) (b # a # st) = Some ((a - b) # st)"
| "postfix_step env (FOp MUL) (b # a # st) = Some ((a * b) # st)"
| "postfix_step env (FOp MAX_op) (b # a # st) = Some (max a b # st)"
| "postfix_step env (FOp DUP) (a # st) = Some (a # a # st)"
| "postfix_step env (FOp SQRT) (a # st) = Some (sqrt a # st)"
| "postfix_step env (FOp ABS) (a # st) = Some (\<bar>a\<bar> # st)"
| "postfix_step env _ _ = None"

fun postfix_run :: "(string \<Rightarrow> real) \<Rightarrow> frag list \<Rightarrow> real list \<Rightarrow> real list option" where
  "postfix_run env [] st = Some st"
| "postfix_run env (t # ts) st =
     (case postfix_step env t st of None \<Rightarrow> None | Some st' \<Rightarrow> postfix_run env ts st')"

definition postfix_eval :: "(string \<Rightarrow> real) \<Rightarrow> frag list \<Rightarrow> real list option" where
  "postfix_eval env e = postfix_run env (flatten_frags e) []"

subsection \<open>\<open>ExprToken.get_value\<close>\<close>

text \<open>
  A clip, as far as the functions here read it: its format (absent for a clip of
  variable format), with the plane count and the bit depth, and its declared colour
  range.
\<close>

datatype ColorRange = LIMITED | FULL

record VideoFormat =
  num_planes :: nat
  bits_per_sample :: nat

record VideoNode =
  format :: "VideoFormat option"
  color_range :: ColorRange

text \<open>
  Modelled from the spec: the three numeric primitives of the host library (imported, not
  under src/), for clips with integer samples of at least 8 bits. Each takes the clip,
  the chroma flag and a range; a call that passes no range (\<open>None\<close> here) resolves
  against the clip's own declared range. Limited range puts the levels of an 8-bit
  sample at 16 and 235 (240 for chroma), scaled to the bit depth; full range at 0 and
  the largest sample value. A clip without a format counts as 8-bit.
\<close>

definition clip_bits :: "VideoNode \<Rightarrow> nat" where
  "clip_bits clip = (case format clip of None \<Rightarrow> 8 | Some f \<Rightarrow> bits_per_sample f)"

definition resolve_range :: "VideoNode \<Rightarrow> ColorRange option \<Rightarrow> ColorRange" where
  "resolve_range clip range_in = (case range_in of None \<Rightarrow> color_range clip | Some r \<Rightarrow> r)"

definition get_lowest_value :: "VideoNode \<Rightarrow> bool \<Rightarrow> ColorRange option \<Rightarrow> rat" where
  "get_lowest_value clip chroma range_in =
     (if resolve_range clip range_in = LIMITED then 16 * 2 ^ (clip_bits clip - 8) else 0)"

definition get_peak_value :: "VideoNode \<Rightarrow> bool \<Rightarrow> ColorRange option \<Rightarrow> rat" where
  "get_peak_value clip chroma range_in =
     (if resolve_range clip range_in = LIMITED
      then (if chroma then 240 else 235) * 2 ^ (clip_bits clip - 8)
      else 2 ^ clip_bits clip - 1)"

definition get_neutral_value :: "VideoNode \<Rightarrow> bool \<Rightarrow> rat" where
  "get_neutral_value clip chroma = 2 ^ (clip_bits clip - 1)"

text \<open>
  \<open>get_value\<close>, one equation for each branch of the source in its order. The defaults
  of the source are \<open>chroma = False\<close> and \<open>range_in = LIMITED\<close>.
\<close>

fun get_value :: "ExprToken \<Rightarrow> VideoNode \<Rightarrow> bool \<Rightarrow> ColorRange \<Rightarrow> rat" where
  "get_value LumaMin clip chroma range_in = get_lowest_value clip False (Some LIMITED)"
| "get_value ChromaMin clip chroma range_in = get_lowest_value clip True (Some LIMITED)"
| "get_value Lumamax clip chroma range_in = get_peak_value clip False (Some LIMITED)"
| "get_value Chromamax clip chroma range_in = get_peak_value clip True (Some LIMITED)"
| "get_value RangeHalf clip chroma range_in = get_neutral_value clip chroma"
| "get_value RangeSize clip chroma range_in =
     (let val = get_peak_value clip False None in val + (1 - (if val \<le> 1 then 1 else 0)))"
| "get_value RangeMin clip chroma range_in = get_lowest_value clip chroma None"
| "get_value LumaRangeMin clip chroma range_in = get_lowest_value clip False None"
| "get_value ChromaRangeMin clip chroma range_in = get_lowest_value clip True None"
| "get_value RangeMax clip chroma range_in = get_peak_value clip chroma None"
| "get_value LumaRangeMax clip chroma range_in = get_peak_value clip False None"
| "get_value ChromaRangeMax clip chroma range_in = get_peak_value clip True None"
| "get_value RangeInMin clip chroma range_in = get_lowest_value clip chroma (Some range_in)"
| "get_value LumaRangeInMin clip chroma range_in = get_lowest_value clip False (Some range_in)"
| "get_value ChromaRangeInMin clip chroma range_in = get_lowest_value clip True (Some range_in)"
| "get_value RangeInMax clip chroma range_in = get_peak_value clip chroma (Some range_in)"
| "get_value LumaRangeInMax clip chroma range_in = get_peak_value clip False (Some range_in)"
| "get_value ChromaRangeInMax clip chroma range_in = get_peak_value clip True (Some range_in)"

section \<open>The expression pipeline (funcs.py)\<close>

text \<open>
  The values that pass through the pipeline: \<open>None\<close>, strings, operators (strings by
  their class, printed as their value), any other object (a number, a token), which
  is carried by the text that \<open>str\<close> returns for it, and sequences (lists, tuples and
  the tuples that \<open>zip\<close> yields). \<open>py_str\<close> is \<open>str\<close> on the leaves; the pipeline
  prints leaves only, and the text of a sequence is a placeholder.
\<close>

datatype pyval =
    PNone
  | PStr string
  | POp ExprOp
  | PObj string
  | PSeq "pyval list"

fun py_str :: "pyval \<Rightarrow> string" where
  "py_str PNone = ''None''"
| "py_str (PStr s) = s"
| "py_str (POp operator) = ExprOp_value operator"
| "py_str (PObj s) = s"
| "py_str (PSeq xs) = ''[...]''"

text \<open>
  \<open>str.strip()\<close> removes the whitespace at both ends. Strings are byte strings here,
  and the whitespace characters are those of ASCII: tab to carriage return, the four
  separators 28 to 31, and the space.
\<close>

definition is_space :: "char \<Rightarrow> bool" where
  "is_space c = (of_char c \<in> {9, 10, 11, 12, 13, 28, 29, 30, 31, 32 :: nat})"

definition strip :: "string \<Rightarrow> string" where
  "strip s = rev (dropWhile is_space (rev (dropWhile is_space s)))"

text \<open>\<open>' '.join(parts)\<close>.\<close>

fun join_space :: "string list \<Rightarrow> string" where
  "join_space [] = []"
| "join_space [s] = s"
| "join_space (s # t # ts) = s @ '' '' @ join_space (t # ts)"

text \<open>
  Modelled from the spec: the helpers of util (not under src/). \<open>flatten\<close> expands
  nested sequences into one flat sequence in order, a string being a leaf;
  \<open>to_arr\<close> leaves a sequence unchanged and makes a one-element sequence of a scalar;
  \<open>EXPR_VARS\<close> is the catalog of one-letter variable names, \<open>x\<close>, \<open>y\<close>, \<open>z\<close> and then
  the remaining letters in order; \<open>normalise_planes\<close> resolves the selector against the
  clip's plane count into the sorted, duplicate-free list of the valid indices, every
  plane when the selector is absent.
\<close>

fun flatten_val :: "pyval \<Rightarrow> pyval list" where
  "flatten_val (PSeq xs) = concat (map flatten_val xs)"
| "flatten_val v = [v]"

definition flatten :: "pyval list \<Rightarrow> pyval list" where
  "flatten items = concat (map flatten_val items)"

fun to_arr :: "pyval \<Rightarrow> pyval list" where
  "to_arr (PSeq xs) = xs"
| "to_arr v = [v]"

definition EXPR_VARS :: "string list" where
  "EXPR_VARS = map (\<lambda>c. [c]) ''xyzabcdefghijklmnopqrstuvw''"

datatype planes_arg = PlanesNone | PlanesInt int | PlanesSeq "int list"

definition normalise_planes :: "VideoNode \<Rightarrow> planes_arg \<Rightarrow> py_error + int list" where
  "normalise_planes clip planes =
     (case format clip of
        None \<Rightarrow> Inl AssertionError
      | Some f \<Rightarrow>
          let valid = (\<lambda>p. 0 \<le> p \<and> p < int (num_planes f)) in
          Inr (case planes of
                 PlanesNone \<Rightarrow> map int [0..<num_planes f]
               | PlanesInt p \<Rightarrow> filter valid [p]
               | PlanesSeq ps \<Rightarrow> sort (remdups (filter valid ps))))"

subsection \<open>\<open>expr\<close>\<close>

text \<open>
  \<open>expr\<close> ends by handing the clips and the list of per-plane expression texts to the
  engine; the model returns that list.
\<close>

definition expr_text :: "pyval list \<Rightarrow> string" where
  "expr_text e =
     (let expr_array = flatten e;
          expr_array_filtered = filter (\<lambda>x. x \<noteq> PNone \<and> x \<noteq> PStr '''') expr_array
      in join_space (map (\<lambda>x. strip (py_str x)) expr_array_filtered))"

definition expr :: "VideoNode list \<Rightarrow> pyval list \<Rightarrow> planes_arg \<Rightarrow> py_error + string list" where
  "expr clips e planes =
     (case clips of
        [] \<Rightarrow> Inl IndexError
      | firstclip # _ \<Rightarrow>
          (case format firstclip of
             None \<Rightarrow> Inl AssertionError
           | Some f \<Rightarrow>
               let n_planes = num_planes f;
                   expr_string = expr_text e
               in (case normalise_planes firstclip planes of
                     Inl err \<Rightarrow> Inl err
                   | Inr planesl \<Rightarrow>
                       Inr [if int x \<in> set planesl then expr_string else ''''. x \<leftarrow> [0..<n_planes]])))"

text \<open>
  The plane selection as the specification words it: every plane when the selector is
  absent, the one plane of a single index, the members of a set of indices.
\<close>

definition spec_plane_selected :: "planes_arg \<Rightarrow> nat \<Rightarrow> bool" where
  "spec_plane_selected planes i =
     (case planes of
        PlanesNone \<Rightarrow> True
      | PlanesInt p \<Rightarrow> int i = p
      | PlanesSeq ps \<Rightarrow> int i \<in> set ps)"

subsection \<open>\<open>_combine_norm__ix\<close> and \<open>combine\<close>\<close>

text \<open>
  A per-clip prefix or suffix argument: absent, a string, a tuple, or a list.
  \<open>ceil(n_clips / len(ffix))\<close> is the ceiling of the exact quotient.
\<close>

datatype ffix_arg = FfixNone | FfixStr string | FfixTuple "pyval list" | FfixList "pyval list"

definition combine_norm_ix :: "ffix_arg \<Rightarrow> nat \<Rightarrow> py_error + pyval list" where
  "combine_norm_ix ffix n_clips =
     (case ffix of
        FfixNone \<Rightarrow> Inr (replicate n_clips (PStr ''''))
      | _ \<Rightarrow>
          let l = (case ffix of
                     FfixStr s \<Rightarrow> [PStr s]
                   | FfixTuple t \<Rightarrow> [PSeq t]
                   | FfixList xs \<Rightarrow> xs
                   | FfixNone \<Rightarrow> [])
          in if length l = 0 then Inl ZeroDivisionError
             else Inr (concat (replicate
                    (max 1 (nat \<lceil>(of_nat n_clips :: rat) / of_nat (length l)\<rceil>)) l)))"

definition combine_args :: "nat \<Rightarrow> pyval list \<Rightarrow> pyval list \<Rightarrow> pyval list" where
  "combine_args n_clips prefixes suffixes =
     (let normalized_args =
            map (\<lambda>x. take (n_clips + 1) (to_arr x))
              [PSeq prefixes, PSeq (map PStr EXPR_VARS), PSeq suffixes]
      in map (\<lambda>(p, v, s). PSeq [p, v, s])
           (zip (normalized_args ! 0) (zip (normalized_args ! 1) (normalized_args ! 2))))"

definition combine ::
  "VideoNode list \<Rightarrow> ExprOp \<Rightarrow> ffix_arg \<Rightarrow> ffix_arg \<Rightarrow> pyval \<Rightarrow> pyval \<Rightarrow> planes_arg \<Rightarrow>
   py_error + string list" where
  "combine clips operator suffix prefix expr_suffix expr_prefix planes =
     (let n_clips = length clips in
      case combine_norm_ix prefix n_clips of
        Inl err \<Rightarrow> Inl err
      | Inr prefixes \<Rightarrow>
          (case combine_norm_ix suffix n_clips of
             Inl err \<Rightarrow> Inl err
           | Inr suffixes \<Rightarrow>
               let args = combine_args n_clips prefixes suffixes;
                   operators = map POp (ExprOp_mul operator (int n_clips - 1))
               in expr clips [expr_prefix, PSeq args, PSeq operators, expr_suffix] planes))"

section \<open>Properties\<close>

text \<open>
  C1. For every minimum bound A, maximum bound B and fragment C: when the extended
  engine is unavailable, \<open>ExprOp.clamp(min=A, max=B, c=C)\<close> returns the fragment
  sequence [C, A, MAX, B, MAX]; when it is available, it returns [C, A, B, CLAMP].
\<close>

theorem clamp_fragments:
  "clamp False A B C = [C, A, FOp MAX_op, B, FOp MAX_op] \<and>
   clamp True A B C = [C, A, B, FOp CLAMP]"
  by (simp add: clamp_def)

subsection \<open>The matrix builder\<close>

lemma concat_concat_map: "concat (concat xss) = concat (map concat xss)"
  by (induction xss) auto

lemma nth_concat_rows:
  "i < length ys \<Longrightarrow> j < n \<Longrightarrow> (\<And>y. length (f y) = n) \<Longrightarrow>
   concat (map f ys) ! (i * n + j) = f (ys ! i) ! j"
proof (induction ys arbitrary: i)
  case Nil
  then show ?case by simp
next
  case (Cons y ys)
  show ?case
  proof (cases i)
    case 0
    with Cons.prems show ?thesis by (simp add: nth_append)
  next
    case (Suc k)
    with Cons.prems have "k < length ys" by simp
    from Cons.IH [OF this Cons.prems(2) Cons.prems(3)]
    have "concat (map f ys) ! (k * n + j) = f (ys ! k) ! j" .
    with Suc Cons.prems show ?thesis by (simp add: nth_append add.assoc)
  qed
qed

lemma matrix_square_list:
  "matrix v r SQUARE ex =
     [if x = 0 \<and> y = 0 then FStr v else FStr (REL_PIX_call v x y).
        y \<leftarrow> [- r..r], x \<leftarrow> [- r..r], (x, y) \<notin> set ex]"
proof -
  have e: "\<And>a b::int. (a = b \<and> b = 0) = (a = 0 \<and> b = 0)" by auto
  show ?thesis
    by (simp add: matrix_def coordinates_def map_concat comp_def concat_concat_map e cong: if_cong)
qed

text \<open>
  C7. For every variable name \<open>v\<close> and radius \<open>r\<close> (a radius is not negative), the
  matrix builder in square mode lists the coordinates row by row, \<open>y\<close> outside and \<open>x\<close>
  inside, each from \<open>-r\<close> to \<open>r\<close>, and leaves out the excluded ones; with no
  exclusions it has \<open>(2r+1)\<^sup>2\<close> entries, and the entry of the coordinate \<open>(dx, dy)\<close>,
  at the row-major position \<open>(dy + r)(2r + 1) + (dx + r)\<close>, is the bare string \<open>v\<close> for
  the centre and the relative-pixel reference \<open>v[dx,dy]\<close> otherwise.
\<close>

theorem matrix_square_entries:
  "0 \<le> r \<Longrightarrow>
   matrix v r SQUARE ex =
     [if x = 0 \<and> y = 0 then FStr v else FStr (REL_PIX_call v x y).
        y \<leftarrow> [- r..r], x \<leftarrow> [- r..r], (x, y) \<notin> set ex] \<and>
   int (length (matrix v r SQUARE [])) = (2 * r + 1)\<^sup>2 \<and>
   (\<forall>dx dy. - r \<le> dx \<and> dx \<le> r \<and> - r \<le> dy \<and> dy \<le> r \<longrightarrow>
      matrix v r SQUARE [] ! nat ((dy + r) * (2 * r + 1) + (dx + r)) =
        (if dx = 0 \<and> dy = 0 then FStr v else FStr (REL_PIX_call v dx dy)))"
proof (intro conjI allI impI)
  assume r: "0 \<le> r"
  show "matrix v r SQUARE ex =
     [if x = 0 \<and> y = 0 then FStr v else FStr (REL_PIX_call v x y).
        y \<leftarrow> [- r..r], x \<leftarrow> [- r..r], (x, y) \<notin> set ex]"
    by (rule matrix_square_list)
  let ?n = "nat (2 * r + 1)"
  let ?row = "\<lambda>y. map (\<lambda>x. if x = 0 \<and> y = 0 then FStr v else FStr (REL_PIX_call v x y)) [- r..r]"
  have m: "matrix v r SQUARE [] = concat (map ?row [- r..r])"
    by (simp add: matrix_square_list)
  have len: "length (matrix v r SQUARE []) = ?n * ?n"
    using r by (simp add: m length_concat comp_def sum_list_triv)
  have "int (?n * ?n) = (2 * r + 1)\<^sup>2"
    using r by (simp add: power2_eq_square)
  with len show "int (length (matrix v r SQUARE [])) = (2 * r + 1)\<^sup>2" by simp
  fix dx dy
  assume b: "- r \<le> dx \<and> dx \<le> r \<and> - r \<le> dy \<and> dy \<le> r"
  let ?i = "nat (dy + r)" and ?j = "nat (dx + r)"
  have i: "?i < length [- r..r]" and j: "?j < ?n" using b by auto
  have idx: "nat ((dy + r) * (2 * r + 1) + (dx + r)) = ?i * ?n + ?j"
    using b r by (simp add: nat_add_distrib nat_mult_distrib)
  have "concat (map ?row [- r..r]) ! (?i * ?n + ?j) = ?row ([- r..r] ! ?i) ! ?j"
    using i j by (rule nth_concat_rows) (use r in simp)
  also have "[- r..r] ! ?i = dy" using b by simp
  also have "?row dy ! ?j = (if dx = 0 \<and> dy = 0 then FStr v else FStr (REL_PIX_call v dx dy))"
    using b by simp
  finally show "matrix v r SQUARE [] ! nat ((dy + r) * (2 * r + 1) + (dx + r)) =
        (if dx = 0 \<and> dy = 0 then FStr v else FStr (REL_PIX_call v dx dy))"
    by (simp add: m idx)
qed

theorem matrix_square_entries_witness:
  "matrix ''x'' 1 SQUARE [] =
     [FStr ''x[-1,-1]'', FStr ''x[0,-1]'', FStr ''x[1,-1]'',
      FStr ''x[-1,0]'', FStr ''x'', FStr ''x[1,0]'',
      FStr ''x[-1,1]'', FStr ''x[0,1]'', FStr ''x[1,1]''] \<and>
   length (matrix ''x'' 1 SQUARE []) = 9 \<and>
   matrix ''x'' 1 SQUARE [] ! 5 = FStr ''x[1,0]'' \<and>
   matrix ''x'' 1 SQUARE [(0, 0)] =
     [FStr ''x[-1,-1]'', FStr ''x[0,-1]'', FStr ''x[1,-1]'',
      FStr ''x[-1,0]'', FStr ''x[1,0]'',
      FStr ''x[-1,1]'', FStr ''x[0,1]'', FStr ''x[1,1]'']"
  using matrix_square_entries [of 1 "''x''" "[]"] matrix_square_entries [of 1 "''x''" "[(0, 0)]"]
  by (simp add: REL_PIX_call_def str_int_def str_nat.simps upto.simps)

subsection \<open>The convolution builder\<close>

lemma isqrt_bounds: "isqrt n * isqrt n \<le> n \<and> n < Suc (isqrt n) * Suc (isqrt n)"
  by (induction n) (auto simp: Let_def)

lemma isqrt_square: "isqrt (k * k) = k"
proof -
  let ?r = "isqrt (k * k)"
  have a: "?r * ?r \<le> k * k" and b: "k * k < Suc ?r * Suc ?r"
    using isqrt_bounds [of "k * k"] by auto
  have "\<not> k < ?r"
  proof
    assume "k < ?r"
    then have "Suc k \<le> ?r" by simp
    then have "Suc k * Suc k \<le> ?r * ?r" by (intro mult_le_mono)
    with a show False by simp
  qed
  moreover have "\<not> Suc ?r \<le> k"
  proof
    assume h: "Suc ?r \<le> k"
    then have "Suc ?r * Suc ?r \<le> k * k" by (intro mult_le_mono)
    with b show False by simp
  qed
  ultimately show ?thesis by simp
qed

lemma isqrt_perfect: "n = (isqrt n)\<^sup>2 \<longleftrightarrow> (\<exists>k. n = k * k)"
proof
  assume "n = (isqrt n)\<^sup>2"
  then have "n = isqrt n * isqrt n" by (simp add: power2_eq_square)
  then show "\<exists>k. n = k * k" ..
next
  assume "\<exists>k. n = k * k"
  then obtain k where "n = k * k" ..
  then show "n = (isqrt n)\<^sup>2" by (simp add: isqrt_square power2_eq_square)
qed

text \<open>
  C5. The convolution builder raises its error (a \<open>ValueError\<close>) exactly when the
  flattened weight sequence has even length, or fewer than 3 items, or, in square mode
  only, a length that is not a perfect square; otherwise it returns a fragment list.
  The error is the whole result: no fragment list comes with it.
\<close>

theorem convolution_error_iff:
  "(\<exists>msg. convolution aka fs var m bias dv sat mode pre mul cl = Inl (ValueError msg)) =
     (even (length (flatten_matrix m)) \<or> length (flatten_matrix m) < 3 \<or>
      (mode = SQUARE \<and> (\<nexists>k. length (flatten_matrix m) = k * k))) \<and>
   (\<exists>out. convolution aka fs var m bias dv sat mode pre mul cl = Inr out) =
     (odd (length (flatten_matrix m)) \<and> 3 \<le> length (flatten_matrix m) \<and>
      (mode = SQUARE \<longrightarrow> (\<exists>k. length (flatten_matrix m) = k * k)))"
  by (auto simp: convolution_def Let_def isqrt_perfect even_iff_mod_2_eq_zero)


theorem convolution_error_iff_witness:
  "(\<exists>msg. convolution False sum_list ''x'' (Flat [1, 1]) None (DivBool True) True HORIZONTAL
      None None False = Inl (ValueError msg)) \<and>
   (\<exists>msg. convolution False sum_list ''x'' (Flat [1]) None (DivBool True) True HORIZONTAL
      None None False = Inl (ValueError msg)) \<and>
   (\<exists>msg. convolution False sum_list ''x'' (Flat [1, 2, 3, 4, 5]) None (DivBool True) True SQUARE
      None None False = Inl (ValueError msg)) \<and>
   (\<exists>out. convolution False sum_list ''x'' (Nested [[1, 2, 1], [2, 4, 2], [1, 2, 1]]) None
      (DivBool True) True SQUARE None None False = Inr out)"
proof -
  have sq: "\<exists>k. length (flatten_matrix (Nested [[1, 2, 1], [2, 4, 2], [1, 2, 1]])) = k * k"
    by (rule exI [of _ 3]) simp
  have nsq: "\<nexists>k. length (flatten_matrix (Flat [1, 2, 3, 4, 5])) = k * k"
  proof
    assume "\<exists>k. length (flatten_matrix (Flat [1, 2, 3, 4, 5])) = k * k"
    then obtain k where "length (flatten_matrix (Flat [1, 2, 3, 4, 5])) = k * k" ..
    then have k: "k * k = 5" by simp
    have "k \<le> 2 \<or> 3 \<le> k" by arith
    then show False
    proof
      assume "k \<le> 2"
      then have "k * k \<le> 2 * 2" by (intro mult_le_mono)
      with k show False by simp
    next
      assume "3 \<le> k"
      then have "3 * 3 \<le> k * k" by (intro mult_le_mono)
      with k show False by simp
    qed
  qed
  show ?thesis
    using sq nsq
      convolution_error_iff [of False sum_list "''x''" "Flat [1, 1]" None "DivBool True" True
        HORIZONTAL None None False]
      convolution_error_iff [of False sum_list "''x''" "Flat [1]" None "DivBool True" True
        HORIZONTAL None None False]
      convolution_error_iff [of False sum_list "''x''" "Flat [1, 2, 3, 4, 5]" None "DivBool True"
        True SQUARE None None False]
      convolution_error_iff [of False sum_list "''x''" "Nested [[1, 2, 1], [2, 4, 2], [1, 2, 1]]"
        None "DivBool True" True SQUARE None None False]
    by simp
qed

lemma concat_map_if_filter:
  "concat (map (\<lambda>x. if P x then [f x] else []) xs) = map f (filter P xs)"
  by (induction xs) auto

lemma conv_terms_eq:
  "[if weight = 1 then rel_pix else FList [rel_pix, FNum weight, FOp MUL].
      (rel_pix, weight) \<leftarrow> zip refs ws, weight \<noteq> 0] = spec_conv_terms refs ws"
proof -
  have "(\<lambda>(rel_pix, weight). if weight \<noteq> 0
            then [if weight = 1 then rel_pix else FList [rel_pix, FNum weight, FOp MUL]] else []) =
        (\<lambda>x. if (\<lambda>(p, w). w \<noteq> 0) x
            then [(\<lambda>(p, w). if w = 1 then p else FList [p, FNum w, FOp MUL]) x] else [])"
    by (auto simp: fun_eq_iff)
  then show ?thesis
    by (simp add: spec_conv_terms_def concat_map_if_filter)
qed

lemma length_conv_terms:
  "length refs = length ws \<Longrightarrow>
   length (spec_conv_terms refs ws) = length (filter (\<lambda>w. w \<noteq> 0) ws)"
proof (induction refs ws rule: list_induct2)
  case Nil
  then show ?case by (simp add: spec_conv_terms_def)
next
  case (Cons p ps w ws)
  then show ?case by (simp add: spec_conv_terms_def)
qed

lemma length_matrix_line:
  "mode \<noteq> SQUARE \<Longrightarrow> length (matrix var (int r) mode []) = 2 * r + 1"
proof -
  have n: "nat (2 * int r + 1) = 2 * r + 1" by linarith
  show "mode \<noteq> SQUARE \<Longrightarrow> length (matrix var (int r) mode []) = 2 * r + 1"
    by (simp add: matrix_def coordinates_def split_def length_concat comp_def sum_list_triv n)
qed

lemma length_matrix_square:
  "length (matrix var (int r) SQUARE []) = (2 * r + 1) * (2 * r + 1)"
proof -
  have n: "nat (2 * int r + 1) = 2 * r + 1" by linarith
  show ?thesis
    by (simp add: matrix_def coordinates_def split_def length_concat comp_def sum_list_triv n)
qed

lemma odd_square_root: "odd (k * k) \<Longrightarrow> 2 * (k div 2) + 1 = (k::nat)"
  by (simp add: odd_two_times_div_two_succ)


lemma length_matrix_conv:
  assumes "odd n" and "mode = SQUARE \<longrightarrow> (\<exists>k. n = k * k)"
  shows "length (matrix var (int (spec_conv_radius n mode)) mode []) = n"
proof (cases "mode = SQUARE")
  case True
  with assms obtain k where k: "n = k * k" by auto
  with assms have "2 * (k div 2) + 1 = k" by (simp add: odd_square_root)
  with True k show ?thesis
    by (simp add: spec_conv_radius_def isqrt_square length_matrix_square)
next
  case False
  from assms have "2 * (n div 2) + 1 = n" by (simp add: odd_two_times_div_two_succ)
  with False show ?thesis
    by (simp add: spec_conv_radius_def length_matrix_line)
qed


lemma fold_ops: "map FOp (ExprOp_mul ADD (mlength xs)) = replicate (length xs - 1) (FOp ADD)"
proof -
  have "nat (int (length xs) - 1) = length xs - 1" by simp
  then show ?thesis by (simp add: ExprOp_mul_def mlength_def)
qed

lemma divisor_step:
  "(if dv \<noteq> DivBool False then
      let d = (case dv of DivBool _ \<Rightarrow> fs ws | DivNum q \<Rightarrow> q)
      in if d \<notin> {0, 1} then append out [FNum d, FOp DIV] else out
    else out) = out @ spec_conv_divisor fs dv ws"
proof (cases dv)
  case (DivBool b)
  then show ?thesis by (cases b) (simp_all add: spec_conv_divisor_def append_def)
next
  case (DivNum q)
  then show ?thesis by (simp add: spec_conv_divisor_def append_def)
qed

text \<open>
  C6. For every valid weight sequence: the neighbour references of the matrix builder
  are as many as the weights and are paired with them in order; the pairs of weight 0
  are left out, a weight 1 gives the bare reference and any other weight
  \<open>[reference, weight, MUL]\<close>; \<open>ADD\<close> follows, once less than there are kept terms;
  then the premultiply step, then the divisor step, which for \<open>True\<close> takes the
  float sum of all the weights and appends \<open>[divisor, DIV]\<close> exactly when the
  divisor is neither 0 nor 1 and appends nothing for \<open>False\<close>; then the remaining
  steps.
\<close>

theorem convolution_output:
  assumes "odd (length (flatten_matrix m))"
    and "3 \<le> length (flatten_matrix m)"
    and "mode = SQUARE \<longrightarrow> (\<exists>k. length (flatten_matrix m) = k * k)"
  shows "let ws = flatten_matrix m;
             refs = matrix var (int (spec_conv_radius (length ws) mode)) mode [];
             terms = spec_conv_terms refs ws
         in length refs = length ws \<and>
            length terms = length (filter (\<lambda>w. w \<noteq> 0) ws) \<and>
            convolution aka fs var m bias dv sat mode pre mul cl =
              Inr (terms @ replicate (length terms - 1) (FOp ADD) @
                   (case pre of None \<Rightarrow> [] | Some p \<Rightarrow> [FNum p, FOp MUL]) @
                   spec_conv_divisor fs dv ws @
                   spec_conv_tail aka bias sat mul cl)"
proof -
  let ?ws = "flatten_matrix m"
  let ?n = "length ?ws"
  let ?refs = "matrix var (int (spec_conv_radius ?n mode)) mode []"
  let ?terms = "spec_conv_terms ?refs ?ws"
  have len: "length ?refs = ?n"
    using assms(1,3) by (rule length_matrix_conv)
  have lt: "length ?terms = length (filter (\<lambda>w. w \<noteq> 0) ?ws)"
    using len by (rule length_conv_terms)
  have ok: "?n mod 2 \<noteq> 0" "\<not> ?n < 3" "\<not> (mode = SQUARE \<and> ?n \<noteq> (isqrt ?n)\<^sup>2)"
    using assms by (auto simp: isqrt_perfect odd_iff_mod_2_eq_one)
  have rad: "(if mode \<noteq> SQUARE then ?n div 2 else isqrt ?n div 2) = spec_conv_radius ?n mode"
    by (simp add: spec_conv_radius_def)
  have "convolution aka fs var m bias dv sat mode pre mul cl =
          Inr (?terms @ replicate (length ?terms - 1) (FOp ADD) @
               (case pre of None \<Rightarrow> [] | Some p \<Rightarrow> [FNum p, FOp MUL]) @
               spec_conv_divisor fs dv ?ws @
               spec_conv_tail aka bias sat mul cl)"
    unfolding convolution_def Let_def
    by (simp only: ok rad if_False conv_terms_eq fold_ops divisor_step [unfolded Let_def])
       (simp add: append_def spec_conv_tail_def split: option.splits)
  with len lt show ?thesis by (simp add: Let_def)
qed




theorem convolution_output_witness:
  "convolution False sum_list ''x'' (Flat [1, 1, 1]) None (DivBool True) True HORIZONTAL
      None None False =
     Inr [FStr ''x[-1,0]'', FStr ''x'', FStr ''x[1,0]'', FOp ADD, FOp ADD, FNum 3, FOp DIV] \<and>
   convolution False sum_list ''x'' (Flat [1, 0, 1]) None (DivBool True) True HORIZONTAL
      None None False =
     Inr [FStr ''x[-1,0]'', FStr ''x[1,0]'', FOp ADD, FNum 2, FOp DIV] \<and>
   convolution False sum_list ''x'' (Nested [[0, 1, 0], [1, - 4, 1], [0, 1, 0]]) None
      (DivBool True) False SQUARE None None False =
     Inr [FStr ''x[0,-1]'', FStr ''x[-1,0]'', FList [FStr ''x'', FNum (- 4), FOp MUL],
          FStr ''x[1,0]'', FStr ''x[0,1]'', FOp ADD, FOp ADD, FOp ADD, FOp ADD, FOp ABS]"
proof -
  have line: "matrix ''x'' 1 HORIZONTAL [] = [FStr ''x[-1,0]'', FStr ''x'', FStr ''x[1,0]'']"
    by (simp add: matrix_def coordinates_def REL_PIX_call_def str_int_def str_nat.simps upto.simps)
  have square: "matrix ''x'' 1 SQUARE [] =
     [FStr ''x[-1,-1]'', FStr ''x[0,-1]'', FStr ''x[1,-1]'',
      FStr ''x[-1,0]'', FStr ''x'', FStr ''x[1,0]'',
      FStr ''x[-1,1]'', FStr ''x[0,1]'', FStr ''x[1,1]'']"
    by (simp add: matrix_def coordinates_def REL_PIX_call_def str_int_def str_nat.simps upto.simps)
  have rad3: "spec_conv_radius 3 HORIZONTAL = 1"
    by (simp add: spec_conv_radius_def)
  have rad9: "spec_conv_radius 9 SQUARE = 1"
    using isqrt_square [of 3] by (simp add: spec_conv_radius_def)
  have len1: "length (flatten_matrix (Flat [1, 1, 1])) = 3"
    and len2: "length (flatten_matrix (Flat [1, 0, 1])) = 3"
    and len3: "length (flatten_matrix (Nested [[0, 1, 0], [1, - 4, 1], [0, 1, 0]])) = 9"
    by simp_all
  have sq: "\<exists>k::nat. 9 = k * k"
    by (rule exI [of _ 3]) simp
  have a: "convolution False sum_list ''x'' (Flat [1, 1, 1]) None (DivBool True) True HORIZONTAL
      None None False =
     Inr [FStr ''x[-1,0]'', FStr ''x'', FStr ''x[1,0]'', FOp ADD, FOp ADD, FNum 3, FOp DIV]"
    using convolution_output [of "Flat [1, 1, 1]" HORIZONTAL "''x''" False sum_list None
        "DivBool True" True None None False]
    unfolding len1 rad3 Let_def
    by (simp add: line spec_conv_terms_def spec_conv_divisor_def spec_conv_tail_def)
  have b: "convolution False sum_list ''x'' (Flat [1, 0, 1]) None (DivBool True) True HORIZONTAL
      None None False =
     Inr [FStr ''x[-1,0]'', FStr ''x[1,0]'', FOp ADD, FNum 2, FOp DIV]"
    using convolution_output [of "Flat [1, 0, 1]" HORIZONTAL "''x''" False sum_list None
        "DivBool True" True None None False]
    unfolding len2 rad3 Let_def
    by (simp add: line spec_conv_terms_def spec_conv_divisor_def spec_conv_tail_def)
  have c: "convolution False sum_list ''x'' (Nested [[0, 1, 0], [1, - 4, 1], [0, 1, 0]]) None
      (DivBool True) False SQUARE None None False =
     Inr [FStr ''x[0,-1]'', FStr ''x[-1,0]'', FList [FStr ''x'', FNum (- 4), FOp MUL],
          FStr ''x[1,0]'', FStr ''x[0,1]'', FOp ADD, FOp ADD, FOp ADD, FOp ADD, FOp ABS]"
    using convolution_output [of "Nested [[0, 1, 0], [1, - 4, 1], [0, 1, 0]]" SQUARE "''x''"
        False sum_list None "DivBool True" False None None False] sq
    unfolding len3 rad9 Let_def
    by (simp add: square spec_conv_terms_def spec_conv_divisor_def spec_conv_tail_def)
  from a b c show ?thesis by (intro conjI)
qed

subsection \<open>Error attribution of \<open>mae\<close>\<close>

text \<open>
  C10. When \<open>ExprOp.mae\<close> is called with two plane-variable ranges of unequal length,
  the length-mismatch error it raises carries \<open>ExprOp.rmse\<close> as the function it is
  attributed to, not \<open>ExprOp.mae\<close>.
\<close>

theorem mae_error_attribution:
  "ExprVars_len (ExprVars_init planesa) \<noteq> ExprVars_len (ExprVars_init planesb) \<Longrightarrow>
   mae vname planesa (Some planesb) =
     Inl (CustomIndexError ''Both clips must have an equal amount of planes!'' ExprOp_rmse) \<and>
   (\<forall>msg. mae vname planesa (Some planesb) \<noteq> Inl (CustomIndexError msg ExprOp_mae))"
  by (simp add: mae_def parse_planes_def)

theorem mae_error_attribution_witness:
  "mae (\<lambda>i. EXPR_VARS ! i) (VarCount 3) (Some (VarRange 3 5)) =
     Inl (CustomIndexError ''Both clips must have an equal amount of planes!'' ExprOp_rmse)"
  using mae_error_attribution [of "VarCount 3" "VarRange 3 5" "\<lambda>i. EXPR_VARS ! i"]
  by (simp add: ExprVars_len_def)

subsection \<open>Token values\<close>

lemma clip_bits_range [simp]: "clip_bits (clip\<lparr>color_range := r\<rparr>) = clip_bits clip"
  by (simp add: clip_bits_def)

text \<open>
  C9. For every clip, \<open>LumaMin\<close>, \<open>ChromaMin\<close>, \<open>Lumamax\<close> and \<open>Chromamax\<close> resolve
  against the limited range whatever range the clip declares (and whatever the chroma
  flag and the input range are), so that an 8-bit clip gives 16 and 235 for luma;
  \<open>RangeMin\<close> and \<open>RangeMax\<close> resolve against the range the clip declares, 16 and
  235 for an 8-bit clip of limited range.
\<close>

theorem token_ranges:
  "get_value LumaMin (clip\<lparr>color_range := r\<rparr>) chroma range_in =
     get_lowest_value clip False (Some LIMITED) \<and>
   get_value ChromaMin (clip\<lparr>color_range := r\<rparr>) chroma range_in =
     get_lowest_value clip True (Some LIMITED) \<and>
   get_value Lumamax (clip\<lparr>color_range := r\<rparr>) chroma range_in =
     get_peak_value clip False (Some LIMITED) \<and>
   get_value Chromamax (clip\<lparr>color_range := r\<rparr>) chroma range_in =
     get_peak_value clip True (Some LIMITED) \<and>
   get_value RangeMin clip chroma range_in =
     get_lowest_value clip chroma (Some (color_range clip)) \<and>
   get_value RangeMax clip chroma range_in =
     get_peak_value clip chroma (Some (color_range clip)) \<and>
   (clip_bits clip = 8 \<longrightarrow>
      get_value LumaMin (clip\<lparr>color_range := r\<rparr>) chroma range_in = 16 \<and>
      get_value Lumamax (clip\<lparr>color_range := r\<rparr>) chroma range_in = 235) \<and>
   (clip_bits clip = 8 \<and> color_range clip = LIMITED \<longrightarrow>
      get_value RangeMin clip False range_in = 16 \<and>
      get_value RangeMax clip False range_in = 235)"
  by (simp add: get_lowest_value_def get_peak_value_def resolve_range_def)

theorem token_ranges_witness:
  "get_value LumaMin \<lparr>format = Some \<lparr>num_planes = 3, bits_per_sample = 8\<rparr>, color_range = FULL\<rparr>
      False LIMITED = 16 \<and>
   get_value Lumamax \<lparr>format = Some \<lparr>num_planes = 3, bits_per_sample = 8\<rparr>, color_range = FULL\<rparr>
      False LIMITED = 235 \<and>
   get_value LumaMin \<lparr>format = Some \<lparr>num_planes = 3, bits_per_sample = 8\<rparr>, color_range = LIMITED\<rparr>
      False LIMITED = 16 \<and>
   get_value Lumamax \<lparr>format = Some \<lparr>num_planes = 3, bits_per_sample = 8\<rparr>, color_range = LIMITED\<rparr>
      False LIMITED = 235 \<and>
   get_value RangeMin \<lparr>format = Some \<lparr>num_planes = 3, bits_per_sample = 8\<rparr>, color_range = LIMITED\<rparr>
      False LIMITED = 16 \<and>
   get_value RangeMax \<lparr>format = Some \<lparr>num_planes = 3, bits_per_sample = 8\<rparr>, color_range = LIMITED\<rparr>
      False LIMITED = 235 \<and>
   get_value RangeMin \<lparr>format = Some \<lparr>num_planes = 3, bits_per_sample = 8\<rparr>, color_range = FULL\<rparr>
      False LIMITED = 0 \<and>
   get_value RangeMax \<lparr>format = Some \<lparr>num_planes = 3, bits_per_sample = 8\<rparr>, color_range = FULL\<rparr>
      False LIMITED = 255"
  using
    token_ranges [where clip = "\<lparr>format = Some \<lparr>num_planes = 3, bits_per_sample = 8\<rparr>, color_range = LIMITED\<rparr>"
      and r = FULL and chroma = False and range_in = LIMITED]
    token_ranges [where clip = "\<lparr>format = Some \<lparr>num_planes = 3, bits_per_sample = 8\<rparr>, color_range = LIMITED\<rparr>"
      and r = LIMITED and chroma = False and range_in = LIMITED]
    token_ranges [where clip = "\<lparr>format = Some \<lparr>num_planes = 3, bits_per_sample = 8\<rparr>, color_range = FULL\<rparr>"
      and r = FULL and chroma = False and range_in = LIMITED]
  by (simp add: clip_bits_def get_lowest_value_def get_peak_value_def resolve_range_def)


subsection \<open>Assembly of the per-plane texts\<close>

lemma flatten_val_leaves: "x \<in> set (flatten_val v) \<Longrightarrow> x \<noteq> PSeq xs"
  by (induction v arbitrary: x) auto

lemma flatten_leaves: "x \<in> set (flatten e) \<Longrightarrow> x \<noteq> PSeq xs"
  by (auto simp: flatten_def dest: flatten_val_leaves)

lemma last_dropWhile: "dropWhile P xs \<noteq> [] \<Longrightarrow> last (dropWhile P xs) = last xs"
  by (induction xs) auto

lemma strip_ends:
  "strip s \<noteq> [] \<Longrightarrow> \<not> is_space (hd (strip s)) \<and> \<not> is_space (last (strip s))"
proof -
  let ?t = "dropWhile is_space s"
  let ?u = "dropWhile is_space (rev ?t)"
  assume "strip s \<noteq> []"
  then have u: "?u \<noteq> []" by (simp add: strip_def)
  have t: "?t \<noteq> []"
  proof
    assume "?t = []"
    then have "?u = []" by (simp only: rev.simps dropWhile.simps)
    with u show False by simp
  qed
  have "hd (strip s) = last ?u" using u by (simp add: strip_def hd_rev)
  also have "\<dots> = last (rev ?t)" using u by (rule last_dropWhile)
  also have "\<dots> = hd ?t" using t by (simp add: last_rev)
  finally have h: "\<not> is_space (hd (strip s))" using t hd_dropWhile [of is_space s] by simp
  have "last (strip s) = hd ?u" using u by (simp add: strip_def last_rev)
  then have "\<not> is_space (last (strip s))" using u hd_dropWhile [of is_space "rev ?t"] by simp
  with h show ?thesis by simp
qed

lemma normalise_planes_member:
  "format clip = Some f \<Longrightarrow> i < num_planes f \<Longrightarrow>
   \<exists>planesl. normalise_planes clip planes = Inr planesl \<and>
     (int i \<in> set planesl) = spec_plane_selected planes i"
  by (cases planes) (auto simp: normalise_planes_def spec_plane_selected_def Let_def)

lemma expr_result:
  assumes "format firstclip = Some f"
  shows "\<exists>out. expr (firstclip # rest) e planes = Inr out \<and> length out = num_planes f \<and>
           (\<forall>i<num_planes f. out ! i = (if spec_plane_selected planes i then expr_text e else []))"
proof -
  from assms obtain planesl where p: "normalise_planes firstclip planes = Inr planesl"
    by (auto simp: normalise_planes_def Let_def)
  let ?out = "[if int x \<in> set planesl then expr_text e else []. x \<leftarrow> [0..<num_planes f]]"
  have e: "expr (firstclip # rest) e planes = Inr ?out"
    using assms p by (simp add: expr_def)
  have "\<forall>i<num_planes f. ?out ! i = (if spec_plane_selected planes i then expr_text e else [])"
  proof (intro allI impI)
    fix i assume i: "i < num_planes f"
    from normalise_planes_member [OF assms i, of planes] p
    have "(int i \<in> set planesl) = spec_plane_selected planes i" by simp
    with i show "?out ! i = (if spec_plane_selected planes i then expr_text e else [])" by simp
  qed
  with e show ?thesis by simp
qed

text \<open>
  C8. For every nested fragment structure, \<open>expr\<close> on clips whose first clip has a
  format returns one text for each plane of the first clip: the expression text at
  every selected plane index and the empty string at every other index. The
  expression text is the flattened structure (no sequence is left in it) without the
  entries that are \<open>None\<close> or the empty string, each remaining entry printed and
  stripped (a stripped text neither starts nor ends with whitespace), joined with
  single spaces.
\<close>

theorem expr_per_plane:
  assumes "format firstclip = Some f"
  shows "(\<exists>out. expr (firstclip # rest) e planes = Inr out \<and> length out = num_planes f \<and>
           (\<forall>i<num_planes f. out ! i = (if spec_plane_selected planes i then expr_text e else []))) \<and>
         expr_text e =
           join_space (map (\<lambda>x. strip (py_str x)) [x \<leftarrow> flatten e. x \<noteq> PNone \<and> x \<noteq> PStr []]) \<and>
         (\<forall>x \<in> set (flatten e). \<forall>xs. x \<noteq> PSeq xs) \<and>
         (\<forall>x. strip x = [] \<or> (\<not> is_space (hd (strip x)) \<and> \<not> is_space (last (strip x))))"
proof (intro conjI)
  show "\<exists>out. expr (firstclip # rest) e planes = Inr out \<and> length out = num_planes f \<and>
           (\<forall>i<num_planes f. out ! i = (if spec_plane_selected planes i then expr_text e else []))"
    using assms by (rule expr_result)
  show "expr_text e =
     join_space (map (\<lambda>x. strip (py_str x)) [x \<leftarrow> flatten e. x \<noteq> PNone \<and> x \<noteq> PStr []])"
    by (simp add: expr_text_def)
  show "\<forall>x \<in> set (flatten e). \<forall>xs. x \<noteq> PSeq xs"
    by (auto dest: flatten_leaves)
  show "\<forall>x. strip x = [] \<or> (\<not> is_space (hd (strip x)) \<and> \<not> is_space (last (strip x)))"
    using strip_ends by blast
qed

theorem expr_per_plane_witness:
  "expr [\<lparr>format = Some \<lparr>num_planes = 3, bits_per_sample = 8\<rparr>, color_range = LIMITED\<rparr>]
     [PStr '' x '', PNone, PSeq [PStr [], PObj ''2'', PSeq [POp MUL]]] (PlanesInt 1) =
     Inr [[], ''x 2 *'', []]"
proof -
  have t: "expr_text [PStr '' x '', PNone, PSeq [PStr [], PObj ''2'', PSeq [POp MUL]]] = ''x 2 *''"
    by (simp add: expr_text_def flatten_def strip_def is_space_def)
  have l: "\<And>out::string list. length out = 3 \<Longrightarrow> out = [out ! 0, out ! 1, out ! 2]"
    by (auto simp: numeral_3_eq_3 length_Suc_conv)
  from expr_per_plane [of "\<lparr>format = Some \<lparr>num_planes = 3, bits_per_sample = 8\<rparr>, color_range = LIMITED\<rparr>"
      "\<lparr>num_planes = 3, bits_per_sample = 8\<rparr>" "[]"
      "[PStr '' x '', PNone, PSeq [PStr [], PObj ''2'', PSeq [POp MUL]]]" "PlanesInt 1"]
  obtain out where o: "expr [\<lparr>format = Some \<lparr>num_planes = 3, bits_per_sample = 8\<rparr>, color_range = LIMITED\<rparr>]
     [PStr '' x '', PNone, PSeq [PStr [], PObj ''2'', PSeq [POp MUL]]] (PlanesInt 1) = Inr out"
    and n: "length out = 3"
    and v: "\<forall>i<3. out ! i = (if spec_plane_selected (PlanesInt 1) i then ''x 2 *'' else [])"
    by (auto simp: t)
  from v have "out ! 0 = []" "out ! 1 = ''x 2 *''" "out ! 2 = []"
    by (simp_all add: spec_plane_selected_def)
  with l [OF n] have "out = [[], ''x 2 *'', []]" by simp
  with o show ?thesis by simp
qed

subsection \<open>\<open>combine\<close>\<close>

lemma combine_norm_ix_None: "combine_norm_ix FfixNone n = Inr (replicate n (PStr []))"
  by (simp add: combine_norm_ix_def)

lemma combine_args_plain:
  "combine_args n (replicate n (PStr [])) (replicate n (PStr [])) =
     map (\<lambda>v. PSeq [PStr [], PStr v, PStr []]) (take n EXPR_VARS)"
proof -
  have m: "min (Suc n) n = n" by simp
  show ?thesis
    by (simp add: combine_args_def Let_def m zip_replicate1 zip_replicate2 take_map
          take_take)
qed

lemma strip_single: "\<not> is_space c \<Longrightarrow> strip [c] = [c]"
  by (simp add: strip_def)

lemma EXPR_VARS_letters:
  "v \<in> set EXPR_VARS \<Longrightarrow> v \<noteq> [] \<and> strip v = v"
  by (auto simp: EXPR_VARS_def strip_def is_space_def)

lemma vars_text:
  "set vs \<subseteq> set EXPR_VARS \<Longrightarrow>
   map (\<lambda>x. strip (py_str x))
     (filter (\<lambda>x. x \<noteq> PNone \<and> x \<noteq> PStr [])
        (concat (map flatten_val (map (\<lambda>v. PSeq [PStr [], PStr v, PStr []]) vs)))) = vs"
proof (induction vs)
  case Nil
  then show ?case by simp
next
  case (Cons v vs)
  then have "v \<noteq> [] \<and> strip v = v" by (simp add: EXPR_VARS_letters)
  with Cons show ?case by simp
qed

lemma ops_text:
  "map (\<lambda>x. strip (py_str x))
     (filter (\<lambda>x. x \<noteq> PNone \<and> x \<noteq> PStr [])
        (concat (map flatten_val (map POp (replicate k ADD))))) = replicate k ''+''"
  by (induction k) (simp_all add: strip_def is_space_def)

lemma combine_text:
  "expr_text [PNone, PSeq (combine_args n (replicate n (PStr [])) (replicate n (PStr []))),
      PSeq (map POp (ExprOp_mul ADD (int n - 1))), PNone] =
   join_space (take n EXPR_VARS @ replicate (n - 1) ''+'')"
proof -
  let ?P = "\<lambda>x. x \<noteq> PNone \<and> x \<noteq> PStr []"
  let ?g = "\<lambda>x. strip (py_str x)"
  let ?vs = "map (\<lambda>v. PSeq [PStr [], PStr v, PStr []]) (take n EXPR_VARS)"
  let ?os = "map POp (replicate (n - 1) ADD)"
  have k: "nat (int n - 1) = n - 1" by simp
  have s: "set (take n EXPR_VARS) \<subseteq> set EXPR_VARS" by (rule set_take_subset)
  have "flatten [PNone, PSeq ?vs, PSeq ?os, PNone] =
          [PNone] @ concat (map flatten_val ?vs) @ concat (map flatten_val ?os) @ [PNone]"
    unfolding flatten_def by simp
  then have "map ?g (filter ?P (flatten [PNone, PSeq ?vs, PSeq ?os, PNone])) =
          map ?g (filter ?P (concat (map flatten_val ?vs))) @
          map ?g (filter ?P (concat (map flatten_val ?os)))"
    by (simp only: filter_append map_append) simp
  also have "\<dots> = take n EXPR_VARS @ replicate (n - 1) ''+''"
    by (simp only: vars_text [OF s] ops_text)
  finally show ?thesis
    by (simp only: expr_text_def Let_def combine_args_plain ExprOp_mul_def k)
qed

text \<open>
  Three clips of one plane combined with \<open>ADD\<close> and no prefix or suffix: the text is
  \<open>x y z + +\<close>, the three variables and then the two operators, and not
  \<open>x y + z +\<close>.
\<close>

theorem combine_three_counterexample:
  "combine
     [\<lparr>format = Some \<lparr>num_planes = 1, bits_per_sample = 8\<rparr>, color_range = LIMITED\<rparr>,
      \<lparr>format = Some \<lparr>num_planes = 1, bits_per_sample = 8\<rparr>, color_range = LIMITED\<rparr>,
      \<lparr>format = Some \<lparr>num_planes = 1, bits_per_sample = 8\<rparr>, color_range = LIMITED\<rparr>]
     ADD FfixNone FfixNone PNone PNone PlanesNone = Inr [''x y z + +''] \<and>
   ''x y z + +'' \<noteq> ''x y + z +''"
  by (simp add: combine_def combine_norm_ix_def combine_args_def EXPR_VARS_def ExprOp_mul_def
        expr_def expr_text_def flatten_def strip_def is_space_def normalise_planes_def Let_def
        numeral_2_eq_2)

text \<open>
  C3, as the code has it. Combining clips with \<open>ADD\<close> and no prefixes or suffixes gives,
  at every selected plane, the clip variables in order followed by the operator once
  less than there are clips, joined with single spaces; for 3 clips that is exactly
  \<open>x y z + +\<close>.
\<close>

theorem combine_add_text:
  assumes "clips \<noteq> []" and "format (hd clips) = Some f"
  shows "\<exists>out. combine clips ADD FfixNone FfixNone PNone PNone planes = Inr out \<and>
           length out = num_planes f \<and>
           (\<forall>i<num_planes f. out ! i =
              (if spec_plane_selected planes i
               then join_space (take (length clips) EXPR_VARS @ replicate (length clips - 1) ''+'')
               else [])) \<and>
           (length clips = 3 \<longrightarrow>
              join_space (take (length clips) EXPR_VARS @ replicate (length clips - 1) ''+'') =
                ''x y z + +'')"
proof -
  from assms obtain firstclip rest where c: "clips = firstclip # rest"
    and f: "format firstclip = Some f"
    by (cases clips) auto
  let ?n = "length clips"
  let ?e = "[PNone, PSeq (combine_args ?n (replicate ?n (PStr [])) (replicate ?n (PStr []))),
      PSeq (map POp (ExprOp_mul ADD (int ?n - 1))), PNone]"
  have e: "combine clips ADD FfixNone FfixNone PNone PNone planes = expr clips ?e planes"
    by (simp add: combine_def combine_norm_ix_None Let_def)
  from expr_result [OF f, of rest ?e planes] c
  obtain out where o: "expr clips ?e planes = Inr out" and n: "length out = num_planes f"
    and v: "\<forall>i<num_planes f. out ! i = (if spec_plane_selected planes i then expr_text ?e else [])"
    by auto
  have t: "length clips = 3 \<longrightarrow>
      join_space (take (length clips) EXPR_VARS @ replicate (length clips - 1) ''+'') = ''x y z + +''"
    by (simp add: EXPR_VARS_def numeral_3_eq_3)
  from o e have "combine clips ADD FfixNone FfixNone PNone PNone planes = Inr out" by simp
  moreover from v have "\<forall>i<num_planes f. out ! i =
              (if spec_plane_selected planes i
               then join_space (take (length clips) EXPR_VARS @ replicate (length clips - 1) ''+'')
               else [])"
    by (simp only: combine_text)
  ultimately show ?thesis using n t by blast
qed

theorem combine_add_text_witness:
  "combine
     [\<lparr>format = Some \<lparr>num_planes = 3, bits_per_sample = 8\<rparr>, color_range = LIMITED\<rparr>,
      \<lparr>format = None, color_range = LIMITED\<rparr>,
      \<lparr>format = None, color_range = FULL\<rparr>]
     ADD FfixNone FfixNone PNone PNone (PlanesInt 1) = Inr [[], ''x y z + +'', []]"
proof -
  let ?clips = "[\<lparr>format = Some \<lparr>num_planes = 3, bits_per_sample = 8\<rparr>, color_range = LIMITED\<rparr>,
      \<lparr>format = None, color_range = LIMITED\<rparr>,
      \<lparr>format = None, color_range = FULL\<rparr>]"
  have l: "\<And>out::string list. length out = 3 \<Longrightarrow> out = [out ! 0, out ! 1, out ! 2]"
    by (auto simp: numeral_3_eq_3 length_Suc_conv)
  from combine_add_text [of ?clips "\<lparr>num_planes = 3, bits_per_sample = 8\<rparr>" "PlanesInt 1"]
  obtain out where o: "combine ?clips ADD FfixNone FfixNone PNone PNone (PlanesInt 1) = Inr out"
    and n: "length out = 3"
    and v: "\<forall>i<3. out ! i = (if spec_plane_selected (PlanesInt 1) i then ''x y z + +'' else [])"
    by (auto simp: EXPR_VARS_def numeral_3_eq_3)
  from v have "out ! 0 = []" "out ! 1 = ''x y z + +''" "out ! 2 = []"
    by (simp_all add: spec_plane_selected_def)
  with l [OF n] have "out = [[], ''x y z + +'', []]" by simp
  with o show ?thesis by simp
qed

text \<open>
  C4. A prefix list and a suffix list of 2 entries each over 5 clips: each is cycled to
  6 entries, the slice keeps \<open>n_clips + 1 = 6\<close> of them, and \<open>zip\<close> yields 6
  per-clip entries, the sixth with the variable \<open>c\<close>, while the operator is repeated
  4 times.
\<close>

theorem combine_two_lists_six_entries:
  "combine_norm_ix (FfixList [PStr ''s0'', PStr ''s1'']) 5 =
     Inr [PStr ''s0'', PStr ''s1'', PStr ''s0'', PStr ''s1'', PStr ''s0'', PStr ''s1''] \<and>
   combine_args 5
     [PStr ''p0'', PStr ''p1'', PStr ''p0'', PStr ''p1'', PStr ''p0'', PStr ''p1'']
     [PStr ''s0'', PStr ''s1'', PStr ''s0'', PStr ''s1'', PStr ''s0'', PStr ''s1''] =
     [PSeq [PStr ''p0'', PStr ''x'', PStr ''s0''], PSeq [PStr ''p1'', PStr ''y'', PStr ''s1''],
      PSeq [PStr ''p0'', PStr ''z'', PStr ''s0''], PSeq [PStr ''p1'', PStr ''a'', PStr ''s1''],
      PSeq [PStr ''p0'', PStr ''b'', PStr ''s0''], PSeq [PStr ''p1'', PStr ''c'', PStr ''s1'']] \<and>
   combine
     (replicate 5 \<lparr>format = Some \<lparr>num_planes = 1, bits_per_sample = 8\<rparr>, color_range = LIMITED\<rparr>)
     MAX_op (FfixList [PStr ''s0'', PStr ''s1'']) (FfixList [PStr ''p0'', PStr ''p1''])
     PNone PNone PlanesNone =
     Inr [''p0 x s0 p1 y s1 p0 z s0 p1 a s1 p0 b s0 p1 c s1 max max max max'']"
proof -
  have c: "nat \<lceil>(of_nat 5 :: rat) / of_nat (length [PStr ''s0'', PStr ''s1''])\<rceil> = 3"
    "nat \<lceil>(of_nat 5 :: rat) / of_nat (length [PStr ''p0'', PStr ''p1''])\<rceil> = 3"
  proof -
    have "\<lceil>5 / 2 :: rat\<rceil> = 3" by (rule ceiling_unique) simp_all
    then show "nat \<lceil>(of_nat 5 :: rat) / of_nat (length [PStr ''s0'', PStr ''s1''])\<rceil> = 3"
      and "nat \<lceil>(of_nat 5 :: rat) / of_nat (length [PStr ''p0'', PStr ''p1''])\<rceil> = 3"
      by simp_all
  qed
  have r3: "replicate (3::nat) x = [x, x, x]" for x :: "pyval list"
    by (simp add: numeral_3_eq_3)
  have r5: "replicate (5::nat) x = [x, x, x, x, x]" for x :: VideoNode
    by (simp add: eval_nat_numeral)
  have n: "combine_norm_ix (FfixList [PStr ''s0'', PStr ''s1'']) 5 =
     Inr [PStr ''s0'', PStr ''s1'', PStr ''s0'', PStr ''s1'', PStr ''s0'', PStr ''s1'']"
    "combine_norm_ix (FfixList [PStr ''p0'', PStr ''p1'']) 5 =
     Inr [PStr ''p0'', PStr ''p1'', PStr ''p0'', PStr ''p1'', PStr ''p0'', PStr ''p1'']"
    by (simp_all add: combine_norm_ix_def c r3 del: of_nat_numeral length_Cons list.size)
  have a: "combine_args 5
     [PStr ''p0'', PStr ''p1'', PStr ''p0'', PStr ''p1'', PStr ''p0'', PStr ''p1'']
     [PStr ''s0'', PStr ''s1'', PStr ''s0'', PStr ''s1'', PStr ''s0'', PStr ''s1''] =
     [PSeq [PStr ''p0'', PStr ''x'', PStr ''s0''], PSeq [PStr ''p1'', PStr ''y'', PStr ''s1''],
      PSeq [PStr ''p0'', PStr ''z'', PStr ''s0''], PSeq [PStr ''p1'', PStr ''a'', PStr ''s1''],
      PSeq [PStr ''p0'', PStr ''b'', PStr ''s0''], PSeq [PStr ''p1'', PStr ''c'', PStr ''s1'']]"
    by (simp add: combine_args_def EXPR_VARS_def Let_def)
  have o: "map POp (ExprOp_mul MAX_op (int 5 - 1)) = [POp MAX_op, POp MAX_op, POp MAX_op, POp MAX_op]"
    by (simp add: ExprOp_mul_def eval_nat_numeral)
  have "combine
     (replicate 5 \<lparr>format = Some \<lparr>num_planes = 1, bits_per_sample = 8\<rparr>, color_range = LIMITED\<rparr>)
     MAX_op (FfixList [PStr ''s0'', PStr ''s1'']) (FfixList [PStr ''p0'', PStr ''p1''])
     PNone PNone PlanesNone =
     Inr [''p0 x s0 p1 y s1 p0 z s0 p1 a s1 p0 b s0 p1 c s1 max max max max'']"
    unfolding combine_def Let_def length_replicate n sum.case a o
    by (simp add: r5 expr_def expr_text_def flatten_def strip_def is_space_def
          normalise_planes_def)
  with n(1) a show ?thesis by simp
qed

subsection \<open>The difference builders under postfix evaluation\<close>

lemma postfix_run_append:
  "postfix_run env (xs @ ys) st =
     (case postfix_run env xs st of None \<Rightarrow> None | Some st' \<Rightarrow> postfix_run env ys st')"
  by (induction xs arbitrary: st) (auto split: option.splits)

lemma run_rmse_pairs:
  "postfix_run env
     (concat (map (\<lambda>(a, b). [FStr a, FStr b, FOp SUB, FOp DUP, FOp MUL, FOp SQRT]) pairs)) st =
   Some (rev (map (\<lambda>(a, b). \<bar>env a - env b\<bar>) pairs) @ st)"
  by (induction pairs arbitrary: st) (auto simp: split_def)

lemma run_mae_pairs:
  "postfix_run env
     (concat (map (\<lambda>(a, b). [FStr a, FStr b, FOp SUB, FOp ABS]) pairs)) st =
   Some (rev (map (\<lambda>(a, b). \<bar>env a - env b\<bar>) pairs) @ st)"
  by (induction pairs arbitrary: st) (auto simp: split_def)

lemma run_max_fold:
  "postfix_run env (replicate (length ds) (FOp MAX_op)) (d # ds) = Some [Max (set (d # ds))]"
proof (induction ds arbitrary: d)
  case Nil
  then show ?case by simp
next
  case (Cons e es)
  have "Max (set (max e d # es)) = Max (set (d # e # es))"
    by (cases "es = []") (simp_all add: max.commute max.left_commute max.assoc)
  with Cons [of "max e d"] show ?case by simp
qed

lemma flatten_rmse:
  "flatten_frags
     (map (\<lambda>(a, b). FList [FStr a, FStr b, FOp SUB, FOp DUP, FOp MUL, FOp SQRT]) pairs @
      [FList (replicate k (FOp MAX_op))]) =
   concat (map (\<lambda>(a, b). [FStr a, FStr b, FOp SUB, FOp DUP, FOp MUL, FOp SQRT]) pairs) @
   replicate k (FOp MAX_op)"
proof -
  have "concat (map frag_leaves (replicate k (FOp MAX_op))) = replicate k (FOp MAX_op)"
    by (induction k) simp_all
  then show ?thesis
    by (simp add: flatten_frags_def comp_def split_def)
qed

lemma flatten_mae:
  "flatten_frags
     (map (\<lambda>(a, b). FList [FStr a, FStr b, FOp SUB, FOp ABS]) pairs @
      [FList (replicate k (FOp MAX_op))]) =
   concat (map (\<lambda>(a, b). [FStr a, FStr b, FOp SUB, FOp ABS]) pairs) @
   replicate k (FOp MAX_op)"
proof -
  have "concat (map frag_leaves (replicate k (FOp MAX_op))) = replicate k (FOp MAX_op)"
    by (induction k) simp_all
  then show ?thesis
    by (simp add: flatten_frags_def comp_def split_def)
qed

lemma run_diffs_max:
  "postfix_run env (replicate (length pairs - 1) (FOp MAX_op))
     (rev (map (\<lambda>(a, b). \<bar>env a - env b\<bar>) pairs)) =
   Some (if pairs = [] then [] else [Max ((\<lambda>(a, b). \<bar>env a - env b\<bar>) ` set pairs)])"
proof (cases "rev (map (\<lambda>(a, b). \<bar>env a - env b\<bar>) pairs)")
  case Nil
  then show ?thesis by simp
next
  case (Cons d ds)
  then have n: "length pairs - 1 = length ds"
    by (metis diff_Suc_1 length_Cons length_map length_rev)
  from Cons have s: "set (d # ds) = (\<lambda>(a, b). \<bar>env a - env b\<bar>) ` set pairs"
    by (metis set_map set_rev)
  from Cons have "pairs \<noteq> []" by auto
  with run_max_fold [of env ds d] show ?thesis
    by (simp only: Cons n s if_False)
qed

lemma fold_max_ops:
  "map FOp (ExprOp_mul MAX_op (mlength xs)) = replicate (length xs - 1) (FOp MAX_op)"
proof -
  have "nat (int (length xs) - 1) = length xs - 1" by simp
  then show ?thesis by (simp add: ExprOp_mul_def mlength_def)
qed

text \<open>
  C2. For every pair of plane-variable ranges of equal length, \<open>rmse\<close> emits
  \<open>[a, b, SUB, DUP, MUL, SQRT]\<close> and \<open>mae\<close> emits \<open>[a, b, SUB, ABS]\<close> for each pair
  \<open>(a, b)\<close>, one pair for each index of the ranges, and both end with \<open>MAX\<close> repeated
  once less than there are pairs; under postfix evaluation over the real numbers the
  two results are defined and equal for every assignment of sample values: the
  largest absolute difference of a pair (the empty stack when there is no pair).
\<close>

theorem rmse_mae_equivalent:
  assumes "ExprVars_len (ExprVars_init planesa) = ExprVars_len (ExprVars_init planesb)"
  shows "let pairs = zip (ExprVars_iter vname (ExprVars_init planesa))
                         (ExprVars_iter vname (ExprVars_init planesb));
             r = map (\<lambda>(a, b). FList [FStr a, FStr b, FOp SUB, FOp DUP, FOp MUL, FOp SQRT]) pairs @
                 [FList (replicate (length pairs - 1) (FOp MAX_op))];
             m = map (\<lambda>(a, b). FList [FStr a, FStr b, FOp SUB, FOp ABS]) pairs @
                 [FList (replicate (length pairs - 1) (FOp MAX_op))]
         in rmse vname planesa (Some planesb) = Inr r \<and>
            mae vname planesa (Some planesb) = Inr m \<and>
            length pairs = ExprVars_len (ExprVars_init planesa) \<and>
            (\<forall>env. postfix_eval env r = postfix_eval env m \<and>
               postfix_eval env r =
                 Some (if pairs = [] then []
                       else [Max ((\<lambda>(a, b). \<bar>env a - env b\<bar>) ` set pairs)]))"
proof -
  let ?pairs = "zip (ExprVars_iter vname (ExprVars_init planesa))
                    (ExprVars_iter vname (ExprVars_init planesb))"
  let ?r = "map (\<lambda>(a, b). FList [FStr a, FStr b, FOp SUB, FOp DUP, FOp MUL, FOp SQRT]) ?pairs @
            [FList (replicate (length ?pairs - 1) (FOp MAX_op))]"
  let ?m = "map (\<lambda>(a, b). FList [FStr a, FStr b, FOp SUB, FOp ABS]) ?pairs @
            [FList (replicate (length ?pairs - 1) (FOp MAX_op))]"
  have p: "parse_planes planesa (Some planesb) ExprOp_rmse =
             Inr (ExprVars_init planesa, ExprVars_init planesb)"
    using assms by (simp add: parse_planes_def)
  have c: "concat (map (\<lambda>(a, b). [g a b]) xs) = map (\<lambda>(a, b). g a b) xs"
    for g :: "string \<Rightarrow> string \<Rightarrow> frag" and xs
    by (induction xs) auto
  have r: "rmse vname planesa (Some planesb) = Inr ?r"
    by (simp add: rmse_def p Let_def append_def fold_max_ops c)
  have m: "mae vname planesa (Some planesb) = Inr ?m"
    by (simp add: mae_def p Let_def append_def fold_max_ops c)
  have l: "length ?pairs = ExprVars_len (ExprVars_init planesa)"
    using assms by (simp add: ExprVars_iter_def ExprVars_len_def)
  have er: "postfix_eval env ?r =
      Some (if ?pairs = [] then [] else [Max ((\<lambda>(a, b). \<bar>env a - env b\<bar>) ` set ?pairs)])" for env
    unfolding postfix_eval_def flatten_rmse postfix_run_append run_rmse_pairs
    by (simp only: option.case append_Nil2 run_diffs_max)
  have em: "postfix_eval env ?m =
      Some (if ?pairs = [] then [] else [Max ((\<lambda>(a, b). \<bar>env a - env b\<bar>) ` set ?pairs)])" for env
    unfolding postfix_eval_def flatten_mae postfix_run_append run_mae_pairs
    by (simp only: option.case append_Nil2 run_diffs_max)
  from r m l er em show ?thesis
    by (simp only: Let_def) simp
qed


theorem rmse_mae_equivalent_witness:
  "rmse (\<lambda>i. EXPR_VARS ! i) (VarCount 2) (Some (VarRange 2 4)) =
     Inr [FList [FStr ''x'', FStr ''z'', FOp SUB, FOp DUP, FOp MUL, FOp SQRT],
          FList [FStr ''y'', FStr ''a'', FOp SUB, FOp DUP, FOp MUL, FOp SQRT],
          FList [FOp MAX_op]] \<and>
   mae (\<lambda>i. EXPR_VARS ! i) (VarCount 2) (Some (VarRange 2 4)) =
     Inr [FList [FStr ''x'', FStr ''z'', FOp SUB, FOp ABS],
          FList [FStr ''y'', FStr ''a'', FOp SUB, FOp ABS],
          FList [FOp MAX_op]] \<and>
   postfix_eval (\<lambda>v. if v = ''x'' then 1 else if v = ''z'' then 5 else 0)
     [FList [FStr ''x'', FStr ''z'', FOp SUB, FOp DUP, FOp MUL, FOp SQRT],
      FList [FStr ''y'', FStr ''a'', FOp SUB, FOp DUP, FOp MUL, FOp SQRT],
      FList [FOp MAX_op]] = Some [4] \<and>
   postfix_eval (\<lambda>v. if v = ''x'' then 1 else if v = ''z'' then 5 else 0)
     [FList [FStr ''x'', FStr ''z'', FOp SUB, FOp ABS],
      FList [FStr ''y'', FStr ''a'', FOp SUB, FOp ABS],
      FList [FOp MAX_op]] = Some [4]"
proof -
  let ?env = "\<lambda>v. if v = ''x'' then 1 else if v = ''z'' then 5 else (0::real)"
  have u: "[0..<2] = [0, 1]" "[2..<4] = [2, 3]"
    by (simp_all add: upt_rec)
  have pairs: "zip (ExprVars_iter (\<lambda>i. EXPR_VARS ! i) (ExprVars_init (VarCount 2)))
                   (ExprVars_iter (\<lambda>i. EXPR_VARS ! i) (ExprVars_init (VarRange 2 4))) =
               [(''x'', ''z''), (''y'', ''a'')]"
    by (simp add: ExprVars_iter_def u EXPR_VARS_def)
  have len: "ExprVars_len (ExprVars_init (VarCount 2)) = ExprVars_len (ExprVars_init (VarRange 2 4))"
    by (simp add: ExprVars_len_def)
  note t = rmse_mae_equivalent [OF len, of "\<lambda>i. EXPR_VARS ! i", unfolded Let_def pairs]
  from t have r: "rmse (\<lambda>i. EXPR_VARS ! i) (VarCount 2) (Some (VarRange 2 4)) =
     Inr [FList [FStr ''x'', FStr ''z'', FOp SUB, FOp DUP, FOp MUL, FOp SQRT],
          FList [FStr ''y'', FStr ''a'', FOp SUB, FOp DUP, FOp MUL, FOp SQRT],
          FList [FOp MAX_op]]"
    and m: "mae (\<lambda>i. EXPR_VARS ! i) (VarCount 2) (Some (VarRange 2 4)) =
     Inr [FList [FStr ''x'', FStr ''z'', FOp SUB, FOp ABS],
          FList [FStr ''y'', FStr ''a'', FOp SUB, FOp ABS],
          FList [FOp MAX_op]]"
    by simp_all
  from t have e: "postfix_eval ?env
     [FList [FStr ''x'', FStr ''z'', FOp SUB, FOp DUP, FOp MUL, FOp SQRT],
      FList [FStr ''y'', FStr ''a'', FOp SUB, FOp DUP, FOp MUL, FOp SQRT],
      FList [FOp MAX_op]] =
    postfix_eval ?env
     [FList [FStr ''x'', FStr ''z'', FOp SUB, FOp ABS],
      FList [FStr ''y'', FStr ''a'', FOp SUB, FOp ABS],
      FList [FOp MAX_op]]"
    by simp
  have v: "postfix_eval ?env
     [FList [FStr ''x'', FStr ''z'', FOp SUB, FOp ABS],
      FList [FStr ''y'', FStr ''a'', FOp SUB, FOp ABS],
      FList [FOp MAX_op]] = Some [4]"
    by (simp add: postfix_eval_def flatten_frags_def)
  from r m e v show ?thesis by simp
qed

end
